theory Spec2Isabelle
  imports Main "HOL-Library.Sublist"
begin

section \<open>Staging path security guard (app/mcp/security.py)\<close>

text \<open>
  Python strings are modelled as \<open>string\<close> (lists of 8-bit characters, read as the
  code points 0..255). Exceptions are values: every validator returns \<open>error + 'a\<close>,
  with \<open>Inl\<close> carrying the exception that the Python code raises.
\<close>

subsection \<open>Errors\<close>

text \<open>
  The exceptions that the pathlib calls of the module raise: \<open>OSError\<close> (and its
  subclasses, such as \<open>PermissionError\<close>), \<open>ValueError\<close> (a path that cannot be
  encoded), and \<open>RuntimeError\<close>, which \<open>Path.resolve\<close> raises on a symbolic-link
  loop.
\<close>

datatype fs_exc = OSError | ValueError | RuntimeError

type_synonym path = "string list"

text \<open>One constructor per \<open>raise\<close> site of the module; the argument is the value
  interpolated into the message.\<close>

datatype reason =
    ProjectIdRequired
  | InvalidProjectIdFormat string
  | ProjectIdBadStart string
  | ProjectIdReserved string
  | FilenameRequired
  | FilenameEmptyAfterNormalization
  | ForbiddenPattern string
  | InvalidFilenameFormat string
  | EmptyPathComponent
  | ReservedNameInPath string
  | HiddenDirectory string
  | MatchesIgnorePattern string
  | InvalidPath fs_exc
  | PathTraversal string
  | SymlinkDetected path
  | RepoUrlRequired
  | RepoUrlNotGithub
  | RepoUrlMissingOwnerRepo

text \<open>\<open>ValidationError\<close> and \<open>SecurityError\<close> are the two exception classes of the
  module; \<open>Uncaught\<close> is an exception of the standard library that no \<open>except\<close> clause
  of the module catches.\<close>

datatype error =
    ValidationError reason
  | SecurityError reason
  | Uncaught fs_exc

subsection \<open>String primitives of Python\<close>

definition code_of :: "char \<Rightarrow> nat" where
  "code_of c = of_char c"

text \<open>\<open>str.isspace\<close> on the code points below 256.\<close>

definition py_isspace :: "char \<Rightarrow> bool" where
  "py_isspace c = (let n = code_of c in
     (9 \<le> n \<and> n \<le> 13) \<or> (28 \<le> n \<and> n \<le> 32) \<or> n = 133 \<or> n = 160)"

definition strip_chars :: "(char \<Rightarrow> bool) \<Rightarrow> string \<Rightarrow> string" where
  "strip_chars P s = rev (dropWhile P (rev (dropWhile P s)))"

definition rstrip_chars :: "(char \<Rightarrow> bool) \<Rightarrow> string \<Rightarrow> string" where
  "rstrip_chars P s = rev (dropWhile P (rev s))"

text \<open>\<open>s.strip()\<close>\<close>

definition py_strip :: "string \<Rightarrow> string" where
  "py_strip s = strip_chars py_isspace s"

text \<open>\<open>s.strip('/')\<close> and \<open>s.rstrip('/')\<close>\<close>

definition strip_slashes :: "string \<Rightarrow> string" where
  "strip_slashes s = strip_chars (\<lambda>c. c = CHR ''/'') s"

definition rstrip_slashes :: "string \<Rightarrow> string" where
  "rstrip_slashes s = rstrip_chars (\<lambda>c. c = CHR ''/'') s"

text \<open>\<open>s.lower()\<close>, character by character, on the code points below 256.\<close>

definition lower_char :: "char \<Rightarrow> char" where
  "lower_char c = (let n = code_of c in
     if (65 \<le> n \<and> n \<le> 90) \<or> (192 \<le> n \<and> n \<le> 222 \<and> n \<noteq> 215)
     then char_of (n + 32) else c)"

definition py_lower :: "string \<Rightarrow> string" where
  "py_lower s = map lower_char s"

text \<open>\<open>s.startswith(p)\<close>\<close>

fun startswith :: "string \<Rightarrow> string \<Rightarrow> bool" where
  "startswith [] s = True"
| "startswith (p # ps) [] = False"
| "startswith (p # ps) (c # cs) = (p = c \<and> startswith ps cs)"

text \<open>\<open>p in s\<close> for strings: \<open>p\<close> occurs as a contiguous substring.\<close>

fun contains :: "string \<Rightarrow> string \<Rightarrow> bool" where
  "contains p [] = (p = [])"
| "contains p (c # cs) = (startswith p (c # cs) \<or> contains p cs)"

text \<open>\<open>s.split('/')\<close>: never empty, \<open>''\<close> gives \<open>['']\<close>.\<close>

fun split_slash :: "string \<Rightarrow> string list" where
  "split_slash [] = [[]]"
| "split_slash (c # cs) =
     (if c = CHR ''/'' then [] # split_slash cs
      else (case split_slash cs of
              [] \<Rightarrow> [[c]]
            | w # ws \<Rightarrow> (c # w) # ws))"

text \<open>\<open>s.replace(old, new)\<close> for a non-empty \<open>old\<close>: the non-overlapping occurrences,
  from the left.\<close>

function replace_str :: "string \<Rightarrow> string \<Rightarrow> string \<Rightarrow> string" where
  "replace_str old new s =
     (if old = [] then s
      else if s = [] then []
      else if startswith old s then new @ replace_str old new (drop (length old) s)
      else hd s # replace_str old new (tl s))"
  by pat_completeness auto
termination
  by (relation "measure (\<lambda>(old, new, s). length s)") (auto simp: neq_Nil_conv)

declare replace_str.simps [simp del]

subsection \<open>Character classes and the compiled patterns\<close>

definition is_alnum :: "char \<Rightarrow> bool" where
  "is_alnum c = (let n = code_of c in
     (97 \<le> n \<and> n \<le> 122) \<or> (65 \<le> n \<and> n \<le> 90) \<or> (48 \<le> n \<and> n \<le> 57))"

text \<open>\<open>[a-zA-Z0-9_-]\<close>\<close>

definition project_id_char :: "char \<Rightarrow> bool" where
  "project_id_char c = (is_alnum c \<or> c = CHR ''_'' \<or> c = CHR ''-'')"

text \<open>\<open>[a-zA-Z0-9._-]\<close> and \<open>[a-zA-Z0-9._/-]\<close>\<close>

definition filename_first_char :: "char \<Rightarrow> bool" where
  "filename_first_char c = (is_alnum c \<or> c = CHR ''.'' \<or> c = CHR ''_'' \<or> c = CHR ''-'')"

definition filename_char :: "char \<Rightarrow> bool" where
  "filename_char c =
     (is_alnum c \<or> c = CHR ''.'' \<or> c = CHR ''_'' \<or> c = CHR ''/'' \<or> c = CHR ''-'')"

text \<open>
  \<open>re.compile(r'^body$').match(s)\<close> where \<open>body\<close> is a sequence of character classes
  none of which contains the newline: Python's \<open>$\<close> matches at the end of the string
  and also just before a newline that ends the string.
\<close>

definition match_dollar :: "(string \<Rightarrow> bool) \<Rightarrow> string \<Rightarrow> bool" where
  "match_dollar body s =
     (body s \<or> (s \<noteq> [] \<and> last s = CHR 0x0A \<and> body (butlast s)))"

text \<open>\<open>[a-zA-Z0-9_-]{3,64}\<close>\<close>

definition project_id_body :: "string \<Rightarrow> bool" where
  "project_id_body s = (3 \<le> length s \<and> length s \<le> 64 \<and> list_all project_id_char s)"

definition VALID_PROJECT_ID :: "string \<Rightarrow> bool" where
  "VALID_PROJECT_ID s = match_dollar project_id_body s"

text \<open>\<open>[a-zA-Z0-9._-][a-zA-Z0-9._/-]{0,254}\<close>\<close>

definition filename_body :: "string \<Rightarrow> bool" where
  "filename_body s =
     (case s of [] \<Rightarrow> False
      | c # cs \<Rightarrow> filename_first_char c \<and> length cs \<le> 254 \<and> list_all filename_char cs)"

definition VALID_FILENAME :: "string \<Rightarrow> bool" where
  "VALID_FILENAME s = match_dollar filename_body s"

definition FORBIDDEN_PATTERNS :: "string list" where
  "FORBIDDEN_PATTERNS =
     [''..'', [CHR 0x00], ''~'', '':'', ''*'', ''?'', [CHR 0x22], ''<'', ''>'', ''|'']"

definition RESERVED_NAMES :: "string list" where
  "RESERVED_NAMES =
     [''con'', ''prn'', ''aux'', ''nul'',
      ''com1'', ''com2'', ''com3'', ''com4'', ''com5'', ''com6'', ''com7'', ''com8'', ''com9'',
      ''lpt1'', ''lpt2'', ''lpt3'', ''lpt4'', ''lpt5'', ''lpt6'', ''lpt7'', ''lpt8'', ''lpt9'']"

subsection \<open>validate_project_id\<close>

definition validate_project_id :: "string \<Rightarrow> error + string" where
  "validate_project_id project_id =
     (if project_id = [] then Inl (ValidationError ProjectIdRequired)
      else let pid = py_strip project_id in
        if \<not> VALID_PROJECT_ID pid then Inl (ValidationError (InvalidProjectIdFormat pid))
        else if startswith ''-'' pid \<or> startswith ''.'' pid
          then Inl (ValidationError (ProjectIdBadStart pid))
        else if py_lower pid \<in> set RESERVED_NAMES
          then Inl (ValidationError (ProjectIdReserved pid))
        else Inr pid)"

subsection \<open>Configuration read at call time\<close>

text \<open>
  \<open>fnmatch.fnmatch\<close> (standard library), the list \<open>IGNORE_PATTERNS\<close>
  (app/ingest/local_loader.py) and \<open>get_settings().data_dir\<close> (app/config/settings.py)
  are not part of the module: the validators take them as a parameter.
  \<open>fnmatch cfg name pattern\<close> is \<open>fnmatch.fnmatch(name, pattern)\<close>.
\<close>

record config =
  fnmatch :: "string \<Rightarrow> string \<Rightarrow> bool"
  IGNORE_PATTERNS :: "string list"
  data_dir :: path

subsection \<open>Pure paths (pathlib, POSIX flavour)\<close>

text \<open>
  A path is its \<open>parts\<close> tuple: an absolute path starts with the component \<open>/\<close>
  (or \<open>//\<close>), the empty list is \<open>Path('.')\<close>. Parsing a string drops empty and
  \<open>.\<close> components.
\<close>

definition path_components :: "string \<Rightarrow> string list" where
  "path_components s = filter (\<lambda>p. p \<noteq> [] \<and> p \<noteq> ''.'') (split_slash s)"

definition path_parts :: "string \<Rightarrow> path" where
  "path_parts s =
     (if startswith ''/'' s
      then (if startswith ''//'' s \<and> \<not> startswith ''///'' s then ''//'' else ''/'')
             # path_components s
      else path_components s)"

text \<open>\<open>Path(s).name\<close>\<close>

definition path_name :: "string \<Rightarrow> string" where
  "path_name s = (if path_components s = [] then [] else last (path_components s))"

text \<open>\<open>p / s\<close>: an absolute right operand replaces the left one.\<close>

definition joinpath :: "path \<Rightarrow> string \<Rightarrow> path" where
  "joinpath p s = (if startswith ''/'' s then path_parts s else p @ path_parts s)"

text \<open>\<open>p.parent\<close>: the anchor and \<open>Path('.')\<close> are their own parents.\<close>

definition parent :: "path \<Rightarrow> path" where
  "parent p =
     (if p = [] \<or> (length p = 1 \<and> startswith ''/'' (hd p)) then p else butlast p)"

subsection \<open>validate_filename\<close>

definition matches_ignore_pattern :: "config \<Rightarrow> string \<Rightarrow> bool" where
  "matches_ignore_pattern cfg filename =
     list_ex (\<lambda>pattern.
        list_ex (\<lambda>part. fnmatch cfg part pattern) (path_parts filename)
        \<or> fnmatch cfg filename pattern
        \<or> fnmatch cfg (path_name filename) pattern)
      (IGNORE_PATTERNS cfg)"

text \<open>The body of the loop over \<open>filename.split('/')\<close>.\<close>

definition check_part :: "string \<Rightarrow> error + unit" where
  "check_part part =
     (if part = [] then Inl (ValidationError EmptyPathComponent)
      else if py_lower part \<in> set RESERVED_NAMES
        then Inl (ValidationError (ReservedNameInPath part))
      else if startswith ''.'' part \<and> part \<noteq> ''.gitignore'' \<and> part \<noteq> ''.gitattributes''
              \<and> \<not> contains ''.'' (drop 1 part)
        then Inl (ValidationError (HiddenDirectory part))
      else Inr ())"

fun check_parts :: "string list \<Rightarrow> error + unit" where
  "check_parts [] = Inr ()"
| "check_parts (p # ps) =
     (case check_part p of Inl e \<Rightarrow> Inl e | Inr _ \<Rightarrow> check_parts ps)"

text \<open>The normalisation: \<open>strip()\<close>, backslash to slash, \<open>strip('/')\<close>.\<close>

definition normalize_filename :: "string \<Rightarrow> string" where
  "normalize_filename filename =
     strip_slashes (replace_str [CHR 0x5C] ''/'' (py_strip filename))"

definition validate_filename :: "config \<Rightarrow> string \<Rightarrow> error + string" where
  "validate_filename cfg filename =
     (if filename = [] then Inl (ValidationError FilenameRequired)
      else let f = normalize_filename filename in
        if f = [] then Inl (ValidationError FilenameEmptyAfterNormalization)
        else case find (\<lambda>pattern. contains pattern f) FORBIDDEN_PATTERNS of
          Some pattern \<Rightarrow> Inl (SecurityError (ForbiddenPattern pattern))
        | None \<Rightarrow>
            if \<not> VALID_FILENAME f then Inl (ValidationError (InvalidFilenameFormat f))
            else case check_parts (split_slash f) of
              Inl e \<Rightarrow> Inl e
            | Inr _ \<Rightarrow>
                if matches_ignore_pattern cfg f
                then Inl (ValidationError (MatchesIgnorePattern f))
                else Inr f)"

subsection \<open>get_safe_staging_path\<close>

text \<open>
  The file system is read through two calls of pathlib, and either may raise.
  \<open>resolve fs p\<close> is \<open>p.resolve()\<close>: the canonical path, or an exception.
  \<open>is_symlink fs p\<close> is \<open>p.is_symlink()\<close>: a boolean (false where the path does not
  exist), or the \<open>OSError\<close> of the underlying \<open>lstat\<close> that pathlib raises again
  (permission denied, name too long).
\<close>

record filesystem =
  resolve :: "path \<Rightarrow> fs_exc + path"
  is_symlink :: "path \<Rightarrow> fs_exc + bool"

text \<open>
  The \<open>while current != staging_root\<close> loop. The call \<open>current.is_symlink()\<close> is
  outside any \<open>try\<close>: an exception it raises leaves the loop, and the function, as
  it is.
\<close>

function check_symlinks :: "filesystem \<Rightarrow> path \<Rightarrow> path \<Rightarrow> error + unit" where
  "check_symlinks fs staging_root current =
     (if current = staging_root then Inr ()
      else (case is_symlink fs current of
              Inl e \<Rightarrow> Inl (Uncaught e)
            | Inr True \<Rightarrow> Inl (SecurityError (SymlinkDetected current))
            | Inr False \<Rightarrow>
                if parent current = parent (parent current) then Inr ()
                else check_symlinks fs staging_root (parent current)))"
  by pat_completeness auto
termination
  by (relation "measure (\<lambda>(fs, staging_root, current). length current)")
     (auto simp: parent_def split: if_splits)

declare check_symlinks.simps [simp del]

definition staging_root_of :: "config \<Rightarrow> path" where
  "staging_root_of cfg = joinpath (data_dir cfg) ''staging''"

definition get_safe_staging_path ::
  "config \<Rightarrow> filesystem \<Rightarrow> string \<Rightarrow> string \<Rightarrow> error + path" where
  "get_safe_staging_path cfg fs project_id filename =
     (case validate_project_id project_id of
        Inl e \<Rightarrow> Inl e
      | Inr pid \<Rightarrow>
     (case validate_filename cfg filename of
        Inl e \<Rightarrow> Inl e
      | Inr fname \<Rightarrow>
        let staging_root = staging_root_of cfg;
            project_staging = joinpath staging_root pid;
            target = joinpath project_staging fname
        in (case resolve fs target of
              Inl OSError \<Rightarrow> Inl (SecurityError (InvalidPath OSError))
            | Inl ValueError \<Rightarrow> Inl (SecurityError (InvalidPath ValueError))
            | Inl RuntimeError \<Rightarrow> Inl (Uncaught RuntimeError)
            | Inr resolved \<Rightarrow>
            (case resolve fs project_staging of
               Inl ValueError \<Rightarrow> Inl (SecurityError (PathTraversal fname))
             | Inl OSError \<Rightarrow> Inl (Uncaught OSError)
             | Inl RuntimeError \<Rightarrow> Inl (Uncaught RuntimeError)
             | Inr base \<Rightarrow>
                 if \<not> prefix base resolved
                 then Inl (SecurityError (PathTraversal fname))
                 else (case check_symlinks fs staging_root target of
                         Inl e \<Rightarrow> Inl e
                       | Inr _ \<Rightarrow> Inr resolved)))))"

subsection \<open>validate_repo_url\<close>

definition validate_repo_url :: "string \<Rightarrow> error + string" where
  "validate_repo_url repo_url =
     (if repo_url = [] then Inl (ValidationError RepoUrlRequired)
      else let url = py_strip repo_url in
        if \<not> startswith ''https://github.com/'' url
        then Inl (ValidationError RepoUrlNotGithub)
        else let parts = split_slash (rstrip_slashes (replace_str ''https://github.com/'' [] url))
          in if length parts < 2 then Inl (ValidationError RepoUrlMissingOwnerRepo)
             else Inr url)"

subsection \<open>Specification-level predicates\<close>

text \<open>
  The acceptance rule for project identifiers as the specification words it: the
  trimmed string is 3 to 64 characters of \<open>[A-Za-z0-9_-]\<close>, does not start with
  \<open>-\<close> or \<open>.\<close>, and is not, ignoring case, a reserved device name.
\<close>

definition project_id_spec :: "string \<Rightarrow> bool" where
  "project_id_spec t =
     (3 \<le> length t \<and> length t \<le> 64 \<and> list_all project_id_char t \<and>
      \<not> startswith ''-'' t \<and> \<not> startswith ''.'' t \<and>
      py_lower t \<notin> set RESERVED_NAMES)"

subsection \<open>A concrete configuration\<close>

text \<open>
  \<open>fnmatch.fnmatch\<close> of the standard library on POSIX (no case folding), for patterns
  without bracket expressions: \<open>*\<close> matches any run of characters, \<open>?\<close> any single
  character, every other character itself; the whole name must match.
\<close>

fun glob_match :: "string \<Rightarrow> string \<Rightarrow> bool" where
  "glob_match [] name = (name = [])"
| "glob_match (p # ps) [] = (p = CHR ''*'' \<and> glob_match ps [])"
| "glob_match (p # ps) (c # cs) =
     (if p = CHR ''*'' then glob_match ps (c # cs) \<or> glob_match (p # ps) cs
      else (p = CHR ''?'' \<or> p = c) \<and> glob_match ps cs)"

definition fnmatch_posix :: "string \<Rightarrow> string \<Rightarrow> bool" where
  "fnmatch_posix name pattern = glob_match pattern name"

text \<open>
  Modelled from the spec: \<open>IGNORE_PATTERNS\<close> is defined in app/ingest/local_loader.py,
  which is not among the sources. The specification describes it as a fixed set of shell
  glob patterns for key and credential files under which \<open>.env\<close>, \<open>id_rsa\<close> and
  \<open>secret.pem\<close> are blocked; this list is the least such set.
\<close>

definition IGNORE_PATTERNS_spec :: "string list" where
  "IGNORE_PATTERNS_spec = [''.env'', ''id_rsa'', ''*.pem'']"

definition example_config :: config where
  "example_config =
     \<lparr>fnmatch = fnmatch_posix, IGNORE_PATTERNS = IGNORE_PATTERNS_spec,
      data_dir = [''/'', ''data'']\<rparr>"

subsection \<open>Example file systems\<close>


text \<open>The directory \<open>/data/staging/proj/src\<close> is a symbolic link to its sibling
  \<open>/data/staging/proj/lib\<close>.\<close>

definition linked_dir_fs :: filesystem where
  "linked_dir_fs =
     \<lparr>resolve = (\<lambda>p. if take 5 p = [''/'', ''data'', ''staging'', ''proj'', ''src'']
                      then Inr ([''/'', ''data'', ''staging'', ''proj'', ''lib''] @ drop 5 p)
                      else Inr p),
      is_symlink = (\<lambda>p. Inr (p = [''/'', ''data'', ''staging'', ''proj'', ''src'']))\<rparr>"

text \<open>The same link, whose target directory \<open>lib\<close> may not be searched: the
  \<open>lstat\<close> of anything below \<open>src\<close> is refused, and \<open>is_symlink\<close> raises
  the \<open>PermissionError\<close>. Resolution is not strict and still returns.\<close>

definition locked_link_fs :: filesystem where
  "locked_link_fs =
     \<lparr>resolve = (\<lambda>p. if take 5 p = [''/'', ''data'', ''staging'', ''proj'', ''src'']
                      then Inr ([''/'', ''data'', ''staging'', ''proj'', ''lib''] @ drop 5 p)
                      else Inr p),
      is_symlink = (\<lambda>p. if p = [''/'', ''data'', ''staging'', ''proj'', ''src'', ''utils.py'']
                         then Inl OSError
                         else Inr (p = [''/'', ''data'', ''staging'', ''proj'', ''src'']))\<rparr>"

text \<open>The same link, on a file system where resolving the project directory
  \<open>/data/staging/proj\<close> raises \<open>OSError\<close>.\<close>

definition linked_dir_error_fs :: filesystem where
  "linked_dir_error_fs =
     \<lparr>resolve = (\<lambda>p. if p = [''/'', ''data'', ''staging'', ''proj''] then Inl OSError
                      else if take 5 p = [''/'', ''data'', ''staging'', ''proj'', ''src'']
                      then Inr ([''/'', ''data'', ''staging'', ''proj'', ''lib''] @ drop 5 p)
                      else Inr p),
      is_symlink = (\<lambda>p. Inr (p = [''/'', ''data'', ''staging'', ''proj'', ''src'']))\<rparr>"

text \<open>The file \<open>/data/staging/proj/main.py\<close> is a symbolic link to its sibling
  \<open>other.py\<close>.\<close>

definition linked_file_fs :: filesystem where
  "linked_file_fs =
     \<lparr>resolve = (\<lambda>p. if p = [''/'', ''data'', ''staging'', ''proj'', ''main.py'']
                      then Inr [''/'', ''data'', ''staging'', ''proj'', ''other.py'']
                      else Inr p),
      is_symlink = (\<lambda>p. Inr (p = [''/'', ''data'', ''staging'', ''proj'', ''main.py'']))\<rparr>"

text \<open>The file \<open>/data/staging/proj/main.py\<close> is a symbolic link to itself: resolving
  it raises \<open>RuntimeError\<close> (symbolic-link loop).\<close>

definition looping_file_fs :: filesystem where
  "looping_file_fs =
     \<lparr>resolve = (\<lambda>p. if p = [''/'', ''data'', ''staging'', ''proj'', ''main.py'']
                      then Inl RuntimeError else Inr p),
      is_symlink = (\<lambda>p. Inr (p = [''/'', ''data'', ''staging'', ''proj'', ''main.py'']))\<rparr>"

text \<open>The link \<open>main.py\<close> to \<open>other.py\<close>, on a file system where resolving the
  project directory \<open>/data/staging/proj\<close> raises \<open>OSError\<close>.\<close>

definition linked_file_error_fs :: filesystem where
  "linked_file_error_fs =
     \<lparr>resolve = (\<lambda>p. if p = [''/'', ''data'', ''staging'', ''proj''] then Inl OSError
                      else if p = [''/'', ''data'', ''staging'', ''proj'', ''main.py'']
                      then Inr [''/'', ''data'', ''staging'', ''proj'', ''other.py'']
                      else Inr p),
      is_symlink = (\<lambda>p. Inr (p = [''/'', ''data'', ''staging'', ''proj'', ''main.py'']))\<rparr>"


text \<open>Resolving the project directory \<open>/data/staging/proj\<close> raises \<open>OSError\<close>;
  every other path resolves to itself.\<close>

definition project_dir_error_fs :: filesystem where
  "project_dir_error_fs =
     \<lparr>resolve = (\<lambda>p. if p = [''/'', ''data'', ''staging'', ''proj'']
                      then Inl OSError else Inr p),
      is_symlink = (\<lambda>p. Inr False)\<rparr>"

text \<open>Resolving the candidate \<open>/data/staging/proj/main.py\<close> raises \<open>OSError\<close>.\<close>

definition target_error_fs :: filesystem where
  "target_error_fs =
     \<lparr>resolve = (\<lambda>p. if p = [''/'', ''data'', ''staging'', ''proj'', ''main.py'']
                      then Inl OSError else Inr p),
      is_symlink = (\<lambda>p. Inr False)\<rparr>"

text \<open>No links; the \<open>lstat\<close> of \<open>/data/staging/proj/main.py\<close> is refused, so
  \<open>is_symlink\<close> raises on it.\<close>

definition lstat_error_fs :: filesystem where
  "lstat_error_fs =
     \<lparr>resolve = Inr,
      is_symlink = (\<lambda>p. if p = [''/'', ''data'', ''staging'', ''proj'', ''main.py'']
                         then Inl OSError else Inr False)\<rparr>"

section \<open>Properties\<close>

subsection \<open>Trimming and the end-of-string anchor\<close>

lemma newline_isspace: "py_isspace (CHR 0x0A)"
  by (simp add: py_isspace_def code_of_def)

lemma strip_chars_last: "strip_chars P s \<noteq> [] \<Longrightarrow> \<not> P (last (strip_chars P s))"
proof -
  assume a: "strip_chars P s \<noteq> []"
  let ?d = "dropWhile P (rev (dropWhile P s))"
  from a have ne: "?d \<noteq> []" by (simp add: strip_chars_def)
  then have "\<not> P (hd ?d)" by (rule hd_dropWhile)
  moreover have "last (strip_chars P s) = hd ?d"
    using ne by (simp add: strip_chars_def last_rev)
  ultimately show ?thesis by simp
qed

lemma match_dollar_strip: "match_dollar body (py_strip s) = body (py_strip s)"
  using strip_chars_last [of py_isspace s] newline_isspace
  by (auto simp: match_dollar_def py_strip_def)

lemma validate_project_id_cases:
  "validate_project_id raw =
     (if project_id_spec (py_strip raw) then Inr (py_strip raw)
      else Inl (ValidationError
        (if raw = [] then ProjectIdRequired
         else if \<not> project_id_body (py_strip raw) then InvalidProjectIdFormat (py_strip raw)
         else if startswith ''-'' (py_strip raw) \<or> startswith ''.'' (py_strip raw)
           then ProjectIdBadStart (py_strip raw)
         else ProjectIdReserved (py_strip raw))))"
proof (cases "raw = []")
  case True
  then show ?thesis
    by (simp add: validate_project_id_def project_id_spec_def py_strip_def strip_chars_def)
next
  case False
  then show ?thesis
    by (auto simp: validate_project_id_def Let_def VALID_PROJECT_ID_def match_dollar_strip
        project_id_spec_def project_id_body_def)
qed

text \<open>
  C7. \<open>validate_project_id\<close> accepts exactly the inputs whose trimmed form satisfies
  the acceptance rule (3 to 64 characters of \<open>[A-Za-z0-9_-]\<close>, no leading \<open>-\<close> or
  \<open>.\<close>, not a reserved device name ignoring case) and returns the trimmed string;
  every rejection is a \<open>ValidationError\<close>. \<open>ab\<close> is rejected, \<open>abc\<close> accepted,
  \<open>-abc\<close> and \<open>NUL\<close> rejected.
\<close>

theorem validate_project_id_accepts_exactly:
  "(project_id_spec (py_strip raw) \<longrightarrow> validate_project_id raw = Inr (py_strip raw))
   \<and> (\<not> project_id_spec (py_strip raw) \<longrightarrow>
        (\<exists>r. validate_project_id raw = Inl (ValidationError r)))
   \<and> validate_project_id ''ab'' = Inl (ValidationError (InvalidProjectIdFormat ''ab''))
   \<and> validate_project_id ''abc'' = Inr ''abc''
   \<and> validate_project_id ''-abc'' = Inl (ValidationError (ProjectIdBadStart ''-abc''))
   \<and> validate_project_id ''NUL'' = Inl (ValidationError (ProjectIdReserved ''NUL''))"
proof -
  have ab: "validate_project_id ''ab'' = Inl (ValidationError (InvalidProjectIdFormat ''ab''))"
    by code_simp
  have abc: "validate_project_id ''abc'' = Inr ''abc''"
    by code_simp
  have mabc: "validate_project_id ''-abc'' = Inl (ValidationError (ProjectIdBadStart ''-abc''))"
    by code_simp
  have nul: "validate_project_id ''NUL'' = Inl (ValidationError (ProjectIdReserved ''NUL''))"
    by code_simp
  show ?thesis
    using ab abc mabc nul by (simp add: validate_project_id_cases [of raw])
qed

theorem validate_project_id_accepts_exactly_witness:
  "project_id_spec (py_strip '' my_proj-1 '')
   \<and> validate_project_id '' my_proj-1 '' = Inr ''my_proj-1''
   \<and> \<not> project_id_spec (py_strip ''a b c'')
   \<and> (\<exists>r. validate_project_id ''a b c'' = Inl (ValidationError r))"
proof -
  have s1: "py_strip '' my_proj-1 '' = ''my_proj-1''" by code_simp
  have p1: "project_id_spec (py_strip '' my_proj-1 '')" by code_simp
  have p2: "\<not> project_id_spec (py_strip ''a b c'')" by code_simp
  from p1 validate_project_id_accepts_exactly [of "'' my_proj-1 ''"]
  have r1: "validate_project_id '' my_proj-1 '' = Inr ''my_proj-1''"
    by (simp add: s1)
  from p2 validate_project_id_accepts_exactly [of "''a b c''"]
  have r2: "\<exists>r. validate_project_id ''a b c'' = Inl (ValidationError r)"
    by blast
  from p1 p2 r1 r2 show ?thesis by blast
qed

subsection \<open>Accepted filenames\<close>

lemma validate_filename_Inr:
  "validate_filename cfg s = Inr r \<Longrightarrow>
     s \<noteq> [] \<and> r = normalize_filename s \<and> r \<noteq> [] \<and>
     find (\<lambda>p. contains p r) FORBIDDEN_PATTERNS = None \<and>
     VALID_FILENAME r \<and> check_parts (split_slash r) = Inr () \<and>
     \<not> matches_ignore_pattern cfg r"
  by (auto simp: validate_filename_def Let_def split: if_splits option.splits sum.splits)

lemma contains_single: "contains [c] s = (c \<in> set s)"
  by (induction s) auto

lemma VALID_FILENAME_chars:
  assumes "VALID_FILENAME r" "c \<in> set r"
  shows "filename_char c \<or> c = CHR 0x0A"
proof -
  have body: "filename_body t \<Longrightarrow> c \<in> set t \<Longrightarrow> filename_char c" for t
    by (cases t) (auto simp: filename_body_def filename_first_char_def filename_char_def
        list_all_iff)
  from assms(1) consider "filename_body r"
    | "r \<noteq> []" "last r = CHR 0x0A" "filename_body (butlast r)"
    by (auto simp: VALID_FILENAME_def match_dollar_def)
  then show ?thesis
  proof cases
    case 1
    with assms(2) body show ?thesis by blast
  next
    case 2
    from 2(1) have "set r = set (butlast r @ [last r])" by simp
    then have "set r = set (butlast r) \<union> {last r}" by (simp del: append_butlast_last_id)
    with assms(2) 2(2) 2(3) body show ?thesis by auto
  qed
qed

lemma backslash_not_filename_char: "\<not> filename_char (CHR 0x5C)"
  by (simp add: filename_char_def is_alnum_def code_of_def)

text \<open>
  C2. Whenever \<open>validate_filename\<close> accepts an input, the returned filename has no
  \<open>..\<close> substring, no null byte and no backslash.
\<close>

theorem validate_filename_output_clean:
  "validate_filename cfg s = Inr r \<Longrightarrow>
     \<not> contains ''..'' r \<and> CHR 0x00 \<notin> set r \<and> CHR 0x5C \<notin> set r"
proof -
  assume ok: "validate_filename cfg s = Inr r"
  from validate_filename_Inr [OF ok]
  have none: "find (\<lambda>p. contains p r) FORBIDDEN_PATTERNS = None"
    and valid: "VALID_FILENAME r" by blast+
  from none have forb: "\<forall>p \<in> set FORBIDDEN_PATTERNS. \<not> contains p r"
    by (simp add: find_None_iff)
  have "''..'' \<in> set FORBIDDEN_PATTERNS" "[CHR 0x00] \<in> set FORBIDDEN_PATTERNS"
    by (simp_all add: FORBIDDEN_PATTERNS_def)
  with forb have dd: "\<not> contains ''..'' r" and nul: "\<not> contains [CHR 0x00] r"
    by blast+
  have "CHR 0x5C \<notin> set r"
    using VALID_FILENAME_chars [OF valid, of "CHR 0x5C"] backslash_not_filename_char
    by auto
  with dd nul show ?thesis by (simp add: contains_single)
qed

theorem validate_filename_output_clean_witness:
  "validate_filename example_config (''src'' @ [CHR 0x5C] @ ''utils.py'') = Inr ''src/utils.py''
   \<and> \<not> contains ''..'' ''src/utils.py''
   \<and> CHR 0x00 \<notin> set ''src/utils.py'' \<and> CHR 0x5C \<notin> set ''src/utils.py''"
proof -
  have ok: "validate_filename example_config (''src'' @ [CHR 0x5C] @ ''utils.py'') = Inr ''src/utils.py''"
    by code_simp
  from validate_filename_output_clean [OF ok] ok show ?thesis by simp
qed

subsection \<open>Re-validating an accepted filename\<close>

lemma strip_chars_id:
  assumes "s \<noteq> []" "\<not> P (hd s)" "\<not> P (last s)"
  shows "strip_chars P s = s"
proof -
  from assms(2) have d1: "dropWhile P s = s" by (simp add: dropWhile_eq_self_iff)
  from assms(1,3) have "dropWhile P (rev s) = rev s"
    by (simp add: dropWhile_eq_self_iff hd_rev)
  with d1 show ?thesis by (simp add: strip_chars_def)
qed

lemma replace_str_absent: "c \<notin> set s \<Longrightarrow> replace_str [c] new s = s"
proof (induction s)
  case Nil
  show ?case by (simp add: replace_str.simps)
next
  case (Cons a s)
  then show ?case by (subst replace_str.simps) auto
qed

lemma filename_char_not_space: "filename_char c \<Longrightarrow> \<not> py_isspace c"
  by (auto simp: filename_char_def is_alnum_def py_isspace_def code_of_def Let_def)

lemma VALID_FILENAME_hd:
  "VALID_FILENAME r \<Longrightarrow> filename_first_char (hd r)"
  by (cases r; cases "butlast r")
     (auto simp: VALID_FILENAME_def match_dollar_def filename_body_def split: if_splits)

lemma filename_first_char_props:
  "filename_first_char c \<Longrightarrow> filename_char c \<and> c \<noteq> CHR ''/''"
  by (auto simp: filename_first_char_def filename_char_def is_alnum_def code_of_def)

lemma normalize_filename_last:
  "normalize_filename s \<noteq> [] \<Longrightarrow> last (normalize_filename s) \<noteq> CHR ''/''"
  using strip_chars_last [of "\<lambda>c. c = CHR ''/''"]
  by (simp add: normalize_filename_def strip_slashes_def)

lemma normalize_filename_fixed:
  assumes ok: "validate_filename cfg s = Inr r" and nl: "last r \<noteq> CHR 0x0A"
  shows "normalize_filename r = r"
proof -
  from validate_filename_Inr [OF ok]
  have r: "r = normalize_filename s" and ne: "r \<noteq> []" and valid: "VALID_FILENAME r"
    by blast+
  have hd: "filename_char (hd r)" "hd r \<noteq> CHR ''/''"
    using VALID_FILENAME_hd [OF valid] filename_first_char_props by blast+
  have "last r \<in> set r" using ne by simp
  with VALID_FILENAME_chars [OF valid] nl have last: "filename_char (last r)" by blast
  have lastslash: "last r \<noteq> CHR ''/''"
    using normalize_filename_last [of s] r ne by simp
  have s1: "py_strip r = r"
    unfolding py_strip_def
    using ne hd(1) last by (intro strip_chars_id) (auto dest: filename_char_not_space)
  have "CHR 0x5C \<notin> set r"
    using VALID_FILENAME_chars [OF valid, of "CHR 0x5C"] backslash_not_filename_char
    by auto
  then have s2: "replace_str [CHR 0x5C] ''/'' r = r" by (rule replace_str_absent)
  have s3: "strip_slashes r = r"
    unfolding strip_slashes_def using ne hd(2) lastslash by (intro strip_chars_id) auto
  show ?thesis by (simp add: normalize_filename_def s1 s2 s3)
qed

lemma validate_filename_idempotent_unless_newline:
  assumes ok: "validate_filename cfg s = Inr r" and nl: "last r \<noteq> CHR 0x0A"
  shows "validate_filename cfg r = Inr r"
proof -
  note fixed = normalize_filename_fixed [OF ok nl]
  from validate_filename_Inr [OF ok]
  have "r \<noteq> []" "find (\<lambda>p. contains p r) FORBIDDEN_PATTERNS = None" "VALID_FILENAME r"
    "check_parts (split_slash r) = Inr ()" "\<not> matches_ignore_pattern cfg r"
    by blast+
  then show ?thesis
    by (simp add: validate_filename_def fixed)
qed

text \<open>
  C3. Idempotence of \<open>validate_filename\<close> on its own output. The input
  \<open>abc\<close>, newline, \<open>/\<close> is accepted and returned as \<open>abc\<close>, newline (the \<open>$\<close>
  of \<open>VALID_FILENAME\<close> matches before a final newline); validating that result again
  returns \<open>abc\<close>, a different value.
\<close>

theorem validate_filename_not_idempotent_newline:
  "validate_filename example_config (''abc'' @ [CHR 0x0A] @ ''/'') = Inr (''abc'' @ [CHR 0x0A])
   \<and> validate_filename example_config (''abc'' @ [CHR 0x0A]) = Inr ''abc''"
  by code_simp

subsection \<open>The attack corpus\<close>

text \<open>
  C5 (as amended). The three traversal filenames of the attack corpus are rejected with a
  \<open>SecurityError\<close> (forbidden pattern \<open>..\<close>) under every configuration; \<open>con\<close>, in
  either letter case, is rejected with a \<open>ValidationError\<close> (reserved name), not a
  \<open>SecurityError\<close>.
\<close>

theorem attack_corpus_rejected:
  "validate_filename cfg ''../../etc/passwd'' = Inl (SecurityError (ForbiddenPattern ''..''))
   \<and> validate_filename cfg ''a/../../b'' = Inl (SecurityError (ForbiddenPattern ''..''))
   \<and> validate_filename cfg
         (''..'' @ [CHR 0x5C] @ ''..'' @ [CHR 0x5C] @ ''windows'' @ [CHR 0x5C] @ ''system32''
            @ [CHR 0x5C] @ ''x'')
       = Inl (SecurityError (ForbiddenPattern ''..''))
   \<and> validate_filename cfg ''con'' = Inl (ValidationError (ReservedNameInPath ''con''))
   \<and> validate_filename cfg ''CON'' = Inl (ValidationError (ReservedNameInPath ''CON''))"
proof -
  have 1: "validate_filename cfg ''../../etc/passwd''
             = Inl (SecurityError (ForbiddenPattern ''..''))"
    by code_simp
  have 2: "validate_filename cfg ''a/../../b'' = Inl (SecurityError (ForbiddenPattern ''..''))"
    by code_simp
  have 3: "validate_filename cfg
         (''..'' @ [CHR 0x5C] @ ''..'' @ [CHR 0x5C] @ ''windows'' @ [CHR 0x5C] @ ''system32''
            @ [CHR 0x5C] @ ''x'')
       = Inl (SecurityError (ForbiddenPattern ''..''))"
    by code_simp
  have 4: "validate_filename cfg ''con'' = Inl (ValidationError (ReservedNameInPath ''con''))"
    by code_simp
  have 5: "validate_filename cfg ''CON'' = Inl (ValidationError (ReservedNameInPath ''CON''))"
    by code_simp
  from 1 2 3 4 5 show ?thesis by blast
qed

text \<open>
  The claim as stated fails: \<open>con\<close> is rejected with a \<open>ValidationError\<close>, and
  \<open>COM1.txt\<close> is not rejected by the reserved-name rule, which compares whole
  components.
\<close>

theorem attack_corpus_counterexample:
  "validate_filename example_config ''con''
     = Inl (ValidationError (ReservedNameInPath ''con''))
   \<and> validate_filename example_config ''COM1.txt'' = Inr ''COM1.txt''"
  by code_simp

subsection \<open>The ignore-pattern matcher\<close>

lemma validate_filename_split:
  "validate_filename cfg s =
     (case validate_filename (cfg\<lparr>IGNORE_PATTERNS := []\<rparr>) s of
        Inl e \<Rightarrow> Inl e
      | Inr f \<Rightarrow>
          if matches_ignore_pattern cfg f
          then Inl (ValidationError (MatchesIgnorePattern f))
          else Inr f)"
  by (simp add: validate_filename_def matches_ignore_pattern_def Let_def
      split: option.splits sum.splits)

lemma validate_filename_matching_fails:
  assumes "matches_ignore_pattern cfg (normalize_filename s)"
  shows "\<exists>e. validate_filename cfg s = Inl e"
proof (cases "validate_filename cfg s")
  case (Inl e)
  then show ?thesis by blast
next
  case (Inr r)
  from validate_filename_Inr [OF Inr] assms show ?thesis by blast
qed

lemma check_parts_components:
  "check_parts ps = Inr () \<Longrightarrow> p \<in> set ps \<Longrightarrow> p \<noteq> [] \<and> p \<noteq> ''.''"
proof (induction ps)
  case Nil
  then show ?case by simp
next
  case (Cons q ps)
  have dot: "check_part ''.'' \<noteq> Inr ()"
    by code_simp
  from Cons.prems(1) have q: "check_part q = Inr ()" and rest: "check_parts ps = Inr ()"
    by (auto split: sum.splits)
  from q have "q \<noteq> []" by (auto simp: check_part_def split: if_splits)
  moreover from q dot have "q \<noteq> ''.''" by auto
  ultimately show ?case using Cons.IH [OF rest] Cons.prems(2) by auto
qed

lemma split_slash_nonempty: "split_slash s \<noteq> []"
  by (induction s) (auto split: list.splits)

lemma accepted_path_parts:
  assumes "validate_filename cfg s = Inr f"
  shows "path_parts f = split_slash f" and "path_name f = last (split_slash f)"
proof -
  from validate_filename_Inr [OF assms]
  have ne: "f \<noteq> []" and valid: "VALID_FILENAME f"
    and parts: "check_parts (split_slash f) = Inr ()" by blast+
  from VALID_FILENAME_hd [OF valid] filename_first_char_props have "hd f \<noteq> CHR ''/''"
    by blast
  with ne have noslash: "\<not> startswith ''/'' f" by (cases f) auto
  from check_parts_components [OF parts]
  have comps: "path_components f = split_slash f"
    by (simp add: path_components_def)
  from comps noslash show "path_parts f = split_slash f" by (simp add: path_parts_def)
  from comps split_slash_nonempty show "path_name f = last (split_slash f)"
    by (simp add: path_name_def)
qed

text \<open>
  C9 (as amended). A filename whose normalized form matches an ignore pattern is never
  accepted. When it passes every earlier step (that is, it is accepted under an empty
  pattern list) and some pattern matches the full relative path, one of its segments or
  its final segment, the failure is the \<open>ValidationError\<close> for a blocked
  secret/credential pattern; otherwise the failure is that of the earlier step. \<open>.env\<close>
  is rejected as a hidden component under every pattern list; \<open>id_rsa\<close> and
  \<open>secret.pem\<close> are rejected as blocked patterns under the pattern list of the
  specification.
\<close>

theorem ignore_pattern_match_rejected:
  "(matches_ignore_pattern cfg (normalize_filename s) \<longrightarrow>
      (\<exists>e. validate_filename cfg s = Inl e))
   \<and> (validate_filename (cfg\<lparr>IGNORE_PATTERNS := []\<rparr>) s = Inr f
        \<and> pattern \<in> set (IGNORE_PATTERNS cfg)
        \<and> (fnmatch cfg f pattern
             \<or> (\<exists>part \<in> set (split_slash f). fnmatch cfg part pattern)
             \<or> fnmatch cfg (last (split_slash f)) pattern)
      \<longrightarrow> validate_filename cfg s = Inl (ValidationError (MatchesIgnorePattern f)))
   \<and> validate_filename cfg ''.env'' = Inl (ValidationError (HiddenDirectory ''.env''))
   \<and> validate_filename example_config ''id_rsa''
        = Inl (ValidationError (MatchesIgnorePattern ''id_rsa''))
   \<and> validate_filename example_config ''secret.pem''
        = Inl (ValidationError (MatchesIgnorePattern ''secret.pem''))"
proof -
  have A: "matches_ignore_pattern cfg (normalize_filename s) \<longrightarrow>
      (\<exists>e. validate_filename cfg s = Inl e)"
    using validate_filename_matching_fails by blast
  have B: "validate_filename cfg s = Inl (ValidationError (MatchesIgnorePattern f))"
    if ok: "validate_filename (cfg\<lparr>IGNORE_PATTERNS := []\<rparr>) s = Inr f"
      and pat: "pattern \<in> set (IGNORE_PATTERNS cfg)"
      and m: "fnmatch cfg f pattern
             \<or> (\<exists>part \<in> set (split_slash f). fnmatch cfg part pattern)
             \<or> fnmatch cfg (last (split_slash f)) pattern"
  proof -
    note pp = accepted_path_parts [OF ok]
    from pat m have "matches_ignore_pattern cfg f"
      unfolding matches_ignore_pattern_def list_ex_iff pp by blast
    with ok show ?thesis by (simp add: validate_filename_split [of cfg s])
  qed
  have C: "validate_filename cfg ''.env'' = Inl (ValidationError (HiddenDirectory ''.env''))"
    by code_simp
  have D: "validate_filename example_config ''id_rsa''
        = Inl (ValidationError (MatchesIgnorePattern ''id_rsa''))"
    by code_simp
  have E: "validate_filename example_config ''secret.pem''
        = Inl (ValidationError (MatchesIgnorePattern ''secret.pem''))"
    by code_simp
  from A B C D E show ?thesis by blast
qed

theorem ignore_pattern_match_rejected_witness:
  "matches_ignore_pattern example_config (normalize_filename ''keys/server.pem'')
   \<and> validate_filename (example_config\<lparr>IGNORE_PATTERNS := []\<rparr>) ''keys/server.pem''
       = Inr ''keys/server.pem''
   \<and> ''*.pem'' \<in> set (IGNORE_PATTERNS example_config)
   \<and> fnmatch example_config ''server.pem'' ''*.pem''
   \<and> ''server.pem'' \<in> set (split_slash ''keys/server.pem'')
   \<and> validate_filename example_config ''keys/server.pem''
       = Inl (ValidationError (MatchesIgnorePattern ''keys/server.pem''))"
proof -
  have m: "matches_ignore_pattern example_config (normalize_filename ''keys/server.pem'')"
    by code_simp
  have ok: "validate_filename (example_config\<lparr>IGNORE_PATTERNS := []\<rparr>) ''keys/server.pem''
       = Inr ''keys/server.pem''"
    by code_simp
  have pat: "''*.pem'' \<in> set (IGNORE_PATTERNS example_config)"
    by code_simp
  have fm: "fnmatch example_config ''server.pem'' ''*.pem''"
    by code_simp
  have seg: "''server.pem'' \<in> set (split_slash ''keys/server.pem'')"
    by code_simp
  from ignore_pattern_match_rejected
    [of example_config "''keys/server.pem''" "''keys/server.pem''" "''*.pem''"]
    ok pat fm seg
  have "validate_filename example_config ''keys/server.pem''
       = Inl (ValidationError (MatchesIgnorePattern ''keys/server.pem''))"
    by blast
  with m ok pat fm seg show ?thesis by blast
qed

text \<open>
  The claim as stated fails on the kind of failure: \<open>~/id_rsa\<close> matches the pattern
  \<open>id_rsa\<close> by its final segment, and is rejected with a \<open>SecurityError\<close> for the
  forbidden character \<open>~\<close>, before the matcher runs.
\<close>

theorem ignore_pattern_counterexample:
  "matches_ignore_pattern example_config (normalize_filename ''~/id_rsa'')
   \<and> validate_filename example_config ''~/id_rsa''
       = Inl (SecurityError (ForbiddenPattern ''~''))"
  by code_simp

subsection \<open>The candidate path\<close>

lemma split_slash_no_slash: "CHR ''/'' \<notin> set s \<Longrightarrow> split_slash s = [s]"
  by (induction s) auto

lemma project_id_char_not_slash: "project_id_char c \<Longrightarrow> c \<noteq> CHR ''/''"
  by (auto simp: project_id_char_def is_alnum_def code_of_def)

lemma validate_project_id_Inr:
  "validate_project_id raw = Inr pid \<Longrightarrow> project_id_spec pid"
  by (simp add: validate_project_id_cases [of raw] split: if_splits)

lemma project_id_parts:
  assumes "validate_project_id raw = Inr pid"
  shows "path_parts pid = [pid]" and "\<not> startswith ''/'' pid"
proof -
  from validate_project_id_Inr [OF assms]
  have len: "3 \<le> length pid" and chars: "list_all project_id_char pid"
    by (simp_all add: project_id_spec_def)
  from chars have noslash: "CHR ''/'' \<notin> set pid"
    using project_id_char_not_slash by (auto simp: list_all_iff)
  from len have ne: "pid \<noteq> []" "pid \<noteq> ''.''" by auto
  from noslash ne(1) show abs: "\<not> startswith ''/'' pid" by (cases pid) auto
  with noslash ne show "path_parts pid = [pid]"
    by (simp add: path_parts_def path_components_def split_slash_no_slash)
qed

lemma staging_root_eq: "staging_root_of cfg = data_dir cfg @ [''staging'']"
  by (simp add: staging_root_of_def joinpath_def path_parts_def path_components_def)

lemma filename_not_absolute:
  assumes "validate_filename cfg s = Inr f"
  shows "\<not> startswith ''/'' f"
proof -
  from validate_filename_Inr [OF assms]
  have ne: "f \<noteq> []" and valid: "VALID_FILENAME f" by blast+
  from VALID_FILENAME_hd [OF valid] filename_first_char_props have "hd f \<noteq> CHR ''/''"
    by blast
  with ne show ?thesis by (cases f) auto
qed

lemma target_eq:
  assumes pid: "validate_project_id project_id = Inr pid"
    and fn: "validate_filename cfg filename = Inr fname"
  shows "joinpath (joinpath (staging_root_of cfg) pid) fname
           = staging_root_of cfg @ (pid # split_slash fname)"
proof -
  from project_id_parts [OF pid]
  have "joinpath (staging_root_of cfg) pid = staging_root_of cfg @ [pid]"
    by (simp add: joinpath_def)
  with filename_not_absolute [OF fn] accepted_path_parts(1) [OF fn]
  show ?thesis by (simp add: joinpath_def)
qed

subsection \<open>The upward walk\<close>

lemma parent_snoc: "p \<noteq> [] \<Longrightarrow> parent (p @ [y]) = p"
  by (simp add: parent_def)

lemma parent_not_fixed:
  assumes "root \<noteq> []" "\<not> startswith ''/'' (last root)"
  shows "parent (root @ ys) \<noteq> root @ ys"
proof -
  have ne: "root @ ys \<noteq> []" using assms(1) by simp
  have "\<not> (length (root @ ys) = 1 \<and> startswith ''/'' (hd (root @ ys)))"
  proof
    assume a: "length (root @ ys) = 1 \<and> startswith ''/'' (hd (root @ ys))"
    with assms(1) have "ys = []" "length root = 1" by (cases root; simp)+
    then obtain r where "root = [r]" by (cases root) auto
    with a \<open>ys = []\<close> assms(2) show False by simp
  qed
  with ne have cond: "\<not> (root @ ys = [] \<or>
      (length (root @ ys) = 1 \<and> startswith ''/'' (hd (root @ ys))))"
    by blast
  have "parent (root @ ys) = butlast (root @ ys)"
    by (simp only: parent_def cond if_False)
  moreover have "length (butlast (root @ ys)) < length (root @ ys)"
    using ne by (simp del: length_append butlast_append)
  ultimately show ?thesis by (metis less_irrefl)
qed

lemma check_symlinks_walk:
  assumes "root \<noteq> []" "\<not> startswith ''/'' (last root)"
  shows "(case check_symlinks fs root (root @ rest) of
            Inr _ \<Rightarrow>
              \<forall>c. strict_prefix root c \<and> prefix c (root @ rest) \<longrightarrow> is_symlink fs c = Inr False
          | Inl e \<Rightarrow>
              \<exists>c. strict_prefix root c \<and> prefix c (root @ rest) \<and>
                  ((is_symlink fs c = Inr True \<and> e = SecurityError (SymlinkDetected c))
                   \<or> (\<exists>x. is_symlink fs c = Inl x \<and> e = Uncaught x)))"
proof (induction rest rule: rev_induct)
  case Nil
  show ?case by (subst check_symlinks.simps) auto
next
  case (snoc y ys)
  let ?cur = "root @ ys @ [y]"
  have par: "parent ?cur = root @ ys"
    using parent_snoc [of "root @ ys" y] assms(1) by simp
  have up: "prefix c ?cur \<Longrightarrow> c = ?cur \<or> prefix c (root @ ys)" for c
    using prefix_snoc [of c "root @ ys" y] by simp
  have down: "prefix c (root @ ys) \<Longrightarrow> prefix c ?cur" for c
    using prefix_snoc [of c "root @ ys" y] by simp
  have here: "strict_prefix root ?cur" "prefix ?cur ?cur"
    by (simp_all add: strict_prefix_def)
  have ne: "?cur \<noteq> root" by simp
  consider (raised) x where "is_symlink fs ?cur = Inl x"
    | (link) "is_symlink fs ?cur = Inr True"
    | (plain) "is_symlink fs ?cur = Inr False"
    by (cases "is_symlink fs ?cur") auto
  then show ?case
  proof cases
    case raised
    then have "check_symlinks fs root ?cur = Inl (Uncaught x)"
      using ne by (subst check_symlinks.simps) simp
    with raised here show ?thesis by auto
  next
    case link
    then have "check_symlinks fs root ?cur = Inl (SecurityError (SymlinkDetected ?cur))"
      using ne by (subst check_symlinks.simps) simp
    with link here show ?thesis by auto
  next
    case plain
    from parent_not_fixed [OF assms, of ys]
    have "parent (root @ ys) \<noteq> root @ ys" .
    with plain have "check_symlinks fs root ?cur = check_symlinks fs root (root @ ys)"
      using ne by (subst check_symlinks.simps) (simp add: par)
    with snoc.IH plain show ?thesis
      by (cases "check_symlinks fs root (root @ ys)") (use up down in \<open>auto\<close>)
  qed
qed

subsection \<open>get_safe_staging_path\<close>

lemma staging_root_shape:
  "staging_root_of cfg \<noteq> []" "\<not> startswith ''/'' (last (staging_root_of cfg))"
  by (simp_all add: staging_root_eq)

lemma get_safe_staging_path_validated:
  assumes "validate_project_id project_id = Inr pid"
    and "validate_filename cfg filename = Inr fname"
  shows "get_safe_staging_path cfg fs project_id filename =
     (case resolve fs (joinpath (joinpath (staging_root_of cfg) pid) fname) of
        Inl OSError \<Rightarrow> Inl (SecurityError (InvalidPath OSError))
      | Inl ValueError \<Rightarrow> Inl (SecurityError (InvalidPath ValueError))
      | Inl RuntimeError \<Rightarrow> Inl (Uncaught RuntimeError)
      | Inr resolved \<Rightarrow>
        (case resolve fs (joinpath (staging_root_of cfg) pid) of
           Inl ValueError \<Rightarrow> Inl (SecurityError (PathTraversal fname))
         | Inl OSError \<Rightarrow> Inl (Uncaught OSError)
         | Inl RuntimeError \<Rightarrow> Inl (Uncaught RuntimeError)
         | Inr base \<Rightarrow>
             if \<not> prefix base resolved then Inl (SecurityError (PathTraversal fname))
             else (case check_symlinks fs (staging_root_of cfg)
                          (joinpath (joinpath (staging_root_of cfg) pid) fname) of
                     Inl e \<Rightarrow> Inl e
                   | Inr _ \<Rightarrow> Inr resolved)))"
  using assms by (simp add: get_safe_staging_path_def Let_def)


text \<open>A symbolic link on the walk: the walk does not pass, and it ends in the
  \<open>SecurityError\<close> for a link or in the exception of an \<open>is_symlink\<close> call.\<close>

lemma walk_symlink_detected:
  assumes pid: "validate_project_id project_id = Inr pid"
    and fn: "validate_filename cfg filename = Inr fname"
    and c: "strict_prefix (staging_root_of cfg) c"
      "prefix c (joinpath (joinpath (staging_root_of cfg) pid) fname)"
      "is_symlink fs c = Inr True"
  shows "(\<exists>d. check_symlinks fs (staging_root_of cfg)
               (joinpath (joinpath (staging_root_of cfg) pid) fname)
             = Inl (SecurityError (SymlinkDetected d)))
       \<or> (\<exists>x. check_symlinks fs (staging_root_of cfg)
               (joinpath (joinpath (staging_root_of cfg) pid) fname)
             = Inl (Uncaught x))"
proof -
  note t = target_eq [OF pid fn]
  from check_symlinks_walk [where root = "staging_root_of cfg" and fs = fs and rest = "pid # split_slash fname", OF staging_root_shape] c
  show ?thesis
    unfolding t
    by (cases "check_symlinks fs (staging_root_of cfg)
                 (staging_root_of cfg @ pid # split_slash fname)") auto
qed

text \<open>Hence the guard never returns a path that had a symbolic link on its walk; it
  fails with a \<open>SecurityError\<close> or with a raw exception of the library.\<close>

lemma symlink_never_returned:
  assumes pid: "validate_project_id project_id = Inr pid"
    and fn: "validate_filename cfg filename = Inr fname"
    and c: "strict_prefix (staging_root_of cfg) c"
      "prefix c (joinpath (joinpath (staging_root_of cfg) pid) fname)"
      "is_symlink fs c = Inr True"
  shows "(\<forall>p. get_safe_staging_path cfg fs project_id filename \<noteq> Inr p)
       \<and> ((\<exists>r. get_safe_staging_path cfg fs project_id filename = Inl (SecurityError r))
          \<or> (\<exists>x. get_safe_staging_path cfg fs project_id filename = Inl (Uncaught x)))"
proof -
  from walk_symlink_detected [OF pid fn c] consider
    d where "check_symlinks fs (staging_root_of cfg)
          (joinpath (joinpath (staging_root_of cfg) pid) fname)
        = Inl (SecurityError (SymlinkDetected d))"
    | x where "check_symlinks fs (staging_root_of cfg)
          (joinpath (joinpath (staging_root_of cfg) pid) fname)
        = Inl (Uncaught x)"
    by blast
  then show ?thesis
  proof cases
    case 1
    show ?thesis
      unfolding get_safe_staging_path_validated [OF pid fn] 1
      by (auto split: sum.splits fs_exc.splits)
  next
    case 2
    show ?thesis
      unfolding get_safe_staging_path_validated [OF pid fn] 2
      by (auto split: sum.splits fs_exc.splits)
  qed
qed

text \<open>The walk starts at the candidate: a candidate that is a symbolic link is reported
  by the first iteration.\<close>

lemma walk_starts_at_candidate:
  assumes "validate_project_id project_id = Inr pid"
    and "validate_filename cfg filename = Inr fname"
    and "target = joinpath (joinpath (staging_root_of cfg) pid) fname"
    and "is_symlink fs target = Inr True"
  shows "check_symlinks fs (staging_root_of cfg) target
           = Inl (SecurityError (SymlinkDetected target))"
proof -
  have "target = staging_root_of cfg @ (pid # split_slash fname)"
    using assms(3) target_eq [OF assms(1,2)] by simp
  then have "target \<noteq> staging_root_of cfg" by simp
  with assms(4) show ?thesis by (subst check_symlinks.simps) simp
qed

text \<open>Both on file systems whose calls do not raise: a linked directory and a linked
  candidate are reported.\<close>

lemma linked_paths_detected:
  "get_safe_staging_path example_config linked_dir_fs ''proj'' ''src/utils.py''
     = Inl (SecurityError (SymlinkDetected [''/'', ''data'', ''staging'', ''proj'', ''src'']))
   \<and> get_safe_staging_path example_config linked_file_fs ''proj'' ''main.py''
     = Inl (SecurityError
         (SymlinkDetected [''/'', ''data'', ''staging'', ''proj'', ''main.py'']))"
  by code_simp

text \<open>For validated inputs, the raw exceptions that leave the guard: a
  \<open>RuntimeError\<close> of the first \<open>resolve\<close>, an \<open>OSError\<close> or \<open>RuntimeError\<close> of the
  second, and whatever an \<open>is_symlink\<close> call of the walk raises.\<close>

lemma uncaught_sources:
  assumes "validate_project_id project_id = Inr pid"
    and "validate_filename cfg filename = Inr fname"
  shows "get_safe_staging_path cfg fs project_id filename = Inl (Uncaught e) \<longleftrightarrow>
           (resolve fs (joinpath (joinpath (staging_root_of cfg) pid) fname) = Inl RuntimeError
              \<and> e = RuntimeError)
           \<or> (\<exists>r. resolve fs (joinpath (joinpath (staging_root_of cfg) pid) fname) = Inr r
                \<and> ((resolve fs (joinpath (staging_root_of cfg) pid) = Inl e \<and> e \<noteq> ValueError)
                   \<or> (\<exists>base. resolve fs (joinpath (staging_root_of cfg) pid) = Inr base
                         \<and> prefix base r
                         \<and> check_symlinks fs (staging_root_of cfg)
                             (joinpath (joinpath (staging_root_of cfg) pid) fname)
                           = Inl (Uncaught e))))"
  unfolding get_safe_staging_path_validated [OF assms]
  by (auto split: sum.splits fs_exc.splits)



text \<open>
  C4. A symbolic link on the upward walk from the candidate to \<open>StagingRoot\<close> should
  make the call fail with a \<open>SecurityError\<close>. The call never returns a path in that
  case (lemma \<open>symlink_never_returned\<close>), but it does not always fail with a
  \<open>SecurityError\<close>: with \<open>/data/staging/proj/src\<close> a symbolic link, the call for
  \<open>src/utils.py\<close> ends in a raw \<open>OSError\<close> when \<open>is_symlink\<close> raises on the
  candidate before the walk reaches the link, and when resolving the project directory
  raises.
\<close>

theorem symlink_on_walk_raw_exception:
  "is_symlink locked_link_fs [''/'', ''data'', ''staging'', ''proj'', ''src''] = Inr True
   \<and> get_safe_staging_path example_config locked_link_fs ''proj'' ''src/utils.py''
       = Inl (Uncaught OSError)
   \<and> is_symlink linked_dir_error_fs [''/'', ''data'', ''staging'', ''proj'', ''src''] = Inr True
   \<and> get_safe_staging_path example_config linked_dir_error_fs ''proj'' ''src/utils.py''
       = Inl (Uncaught OSError)"
  by code_simp

text \<open>
  C10. The walk starts at the candidate itself (lemma \<open>walk_starts_at_candidate\<close>), and
  a candidate that is a symbolic link is never returned; the call should then fail with
  a \<open>SecurityError\<close>. It does not always: a candidate \<open>main.py\<close> that links to itself
  makes the first \<open>resolve\<close> raise \<open>RuntimeError\<close>, which its handler does not catch,
  and a linked candidate ends in a raw \<open>OSError\<close> when resolving the project directory
  raises.
\<close>

theorem symlinked_candidate_raw_exception:
  "is_symlink looping_file_fs [''/'', ''data'', ''staging'', ''proj'', ''main.py''] = Inr True
   \<and> get_safe_staging_path example_config looping_file_fs ''proj'' ''main.py''
       = Inl (Uncaught RuntimeError)
   \<and> is_symlink linked_file_error_fs [''/'', ''data'', ''staging'', ''proj'', ''main.py'']
       = Inr True
   \<and> get_safe_staging_path example_config linked_file_error_fs ''proj'' ''main.py''
       = Inl (Uncaught OSError)"
  by code_simp

text \<open>
  C6. Normalisation of file-system failures to \<open>SecurityError\<close>. An \<open>OSError\<close> raised
  while resolving the candidate is reported as a \<open>SecurityError\<close>; an \<open>OSError\<close> raised
  while resolving the project directory (the second \<open>resolve\<close>, guarded by
  \<open>except ValueError\<close> only) leaves the guard as a raw exception, and so does an
  \<open>OSError\<close> raised by an \<open>is_symlink\<close> call of the walk.
\<close>

theorem project_dir_oserror_propagates:
  "get_safe_staging_path example_config target_error_fs ''proj'' ''main.py''
     = Inl (SecurityError (InvalidPath OSError))
   \<and> get_safe_staging_path example_config project_dir_error_fs ''proj'' ''main.py''
     = Inl (Uncaught OSError)
   \<and> get_safe_staging_path example_config lstat_error_fs ''proj'' ''main.py''
     = Inl (Uncaught OSError)"
  by code_simp

subsection \<open>validate_repo_url\<close>

lemma startswith_iff: "startswith p s \<longleftrightarrow> (\<exists>b. s = p @ b)"
  by (induction p s rule: startswith.induct) auto

lemma contains_iff: "contains p s \<longleftrightarrow> (\<exists>a b. s = a @ p @ b)"
proof (induction s)
  case Nil
  show ?case by auto
next
  case (Cons c cs)
  show ?case
  proof
    assume "contains p (c # cs)"
    then consider "startswith p (c # cs)" | "contains p cs" by auto
    then show "\<exists>a b. c # cs = a @ p @ b"
    proof cases
      case 1
      then obtain b where "c # cs = p @ b" by (auto simp: startswith_iff)
      then have "c # cs = [] @ p @ b" by simp
      then show ?thesis by blast
    next
      case 2
      with Cons.IH obtain a b where "cs = a @ p @ b" by blast
      then have "c # cs = (c # a) @ p @ b" by simp
      then show ?thesis by blast
    qed
  next
    assume "\<exists>a b. c # cs = a @ p @ b"
    then obtain a b where ab: "c # cs = a @ p @ b" by blast
    show "contains p (c # cs)"
    proof (cases a)
      case Nil
      with ab have "startswith p (c # cs)" unfolding startswith_iff by simp
      then show ?thesis by simp
    next
      case (Cons x xs)
      with ab have "cs = xs @ p @ b" by simp
      with Cons.IH show ?thesis by auto
    qed
  qed
qed

lemma contains_trans: "contains q p \<Longrightarrow> contains p s \<Longrightarrow> contains q s"
proof -
  assume "contains q p" "contains p s"
  then obtain a b a' b' where "p = a @ q @ b" "s = a' @ p @ b'"
    by (auto simp: contains_iff)
  then have "s = (a' @ a) @ q @ (b @ b')" by simp
  then show ?thesis unfolding contains_iff by blast
qed

lemma replace_str_no_occurrence: "\<not> contains old s \<Longrightarrow> replace_str old new s = s"
proof (induction s)
  case Nil
  show ?case by (simp add: replace_str.simps)
next
  case (Cons c cs)
  then show ?case by (subst replace_str.simps) auto
qed

lemma replace_str_prefix:
  "old \<noteq> [] \<Longrightarrow> replace_str old new (old @ s) = new @ replace_str old new s"
  by (subst replace_str.simps) (auto simp: startswith_iff)

lemma rstrip_chars_Cons:
  "rstrip_chars P (c # cs) =
     (if rstrip_chars P cs = [] then (if P c then [] else [c]) else c # rstrip_chars P cs)"
  by (auto simp: rstrip_chars_def dropWhile_append dropWhile_eq_Nil_conv)

lemma split_slash_length: "length (split_slash s) = Suc (length (filter (\<lambda>c. c = CHR ''/'') s))"
  by (induction s) (auto split: list.splits)

lemma split_slash_single: "length (split_slash s) < 2 \<longleftrightarrow> CHR ''/'' \<notin> set s"
  by (auto simp: split_slash_length filter_empty_conv)

lemma trailing_slashes_only:
  "CHR ''/'' \<notin> set (rstrip_slashes s) \<Longrightarrow> \<not> contains ''/g'' s"
proof (induction s)
  case Nil
  show ?case by simp
next
  case (Cons c cs)
  show ?case
  proof (cases "rstrip_slashes cs = []")
    case True
    then have "\<not> startswith ''g'' cs"
      by (cases cs) (auto simp: rstrip_slashes_def rstrip_chars_Cons split: if_splits)
    moreover from True Cons.IH have "\<not> contains ''/g'' cs" by simp
    ultimately show ?thesis by auto
  next
    case False
    with Cons.prems have "c \<noteq> CHR ''/''" "CHR ''/'' \<notin> set (rstrip_slashes cs)"
      by (auto simp: rstrip_slashes_def rstrip_chars_Cons split: if_splits)
    with Cons.IH show ?thesis by auto
  qed
qed

lemma rstrip_space_keeps_shape:
  assumes "CHR ''/'' \<notin> set (rstrip_slashes s)"
  shows "CHR ''/'' \<notin> set (rstrip_slashes (rstrip_chars py_isspace s))"
proof (cases "rev s = [] \<or> \<not> py_isspace (hd (rev s))")
  case True
  then have "dropWhile py_isspace (rev s) = rev s"
    by (simp add: dropWhile_eq_self_iff)
  then have "rstrip_chars py_isspace s = s" by (simp add: rstrip_chars_def)
  with assms show ?thesis by simp
next
  case False
  then have ne: "rev s \<noteq> []" and sp: "py_isspace (hd (rev s))" by auto
  have "\<not> py_isspace (CHR ''/'')" by (simp add: py_isspace_def code_of_def)
  with sp have "hd (rev s) \<noteq> CHR ''/''" by auto
  with ne have "dropWhile (\<lambda>c. c = CHR ''/'') (rev s) = rev s"
    by (simp add: dropWhile_eq_self_iff)
  with assms have "CHR ''/'' \<notin> set s"
    by (simp add: rstrip_slashes_def rstrip_chars_def)
  moreover have "set (rstrip_slashes (rstrip_chars py_isspace s)) \<subseteq> set s"
    by (auto simp: rstrip_slashes_def rstrip_chars_def dest!: set_dropWhileD)
  ultimately show ?thesis by blast
qed

lemma py_strip_prefixed:
  assumes "p \<noteq> []" "\<not> py_isspace (hd p)" "\<not> py_isspace (last p)"
  shows "py_strip (p @ s) = p @ rstrip_chars py_isspace s"
proof -
  from assms(1,2) have "dropWhile py_isspace (p @ s) = p @ s"
    by (simp add: dropWhile_eq_self_iff)
  moreover from assms(1,3) have "dropWhile py_isspace (rev p) = rev p"
    by (simp add: dropWhile_eq_self_iff hd_rev)
  then have "dropWhile py_isspace (rev s @ rev p) = dropWhile py_isspace (rev s) @ rev p"
    by (auto simp: dropWhile_append dropWhile_eq_Nil_conv)
  ultimately show ?thesis
    by (simp add: py_strip_def strip_chars_def rstrip_chars_def)
qed

lemma repo_url_missing_repo_trimmed:
  assumes trimmed: "py_strip raw = ''https://github.com/'' @ rest"
    and few: "length (split_slash (rstrip_slashes rest)) < 2"
  shows "validate_repo_url raw = Inl (ValidationError RepoUrlMissingOwnerRepo)"
proof -
  let ?p = "''https://github.com/''"
  from trimmed have ne: "raw \<noteq> []"
    by (auto simp: py_strip_def strip_chars_def)
  from few have "CHR ''/'' \<notin> set (rstrip_slashes rest)"
    by (simp add: split_slash_single)
  then have "\<not> contains ''/g'' rest" by (rule trailing_slashes_only)
  moreover have "contains ''/g'' ?p" by code_simp
  ultimately have "\<not> contains ?p rest" using contains_trans by blast
  then have "replace_str ?p [] rest = rest" by (rule replace_str_no_occurrence)
  then have repl: "replace_str ?p [] (?p @ rest) = rest"
    using replace_str_prefix [of ?p "[]" rest] by simp
  have sw: "startswith ?p (?p @ rest)" unfolding startswith_iff by blast
  from ne sw repl few trimmed show ?thesis
    unfolding validate_repo_url_def Let_def by (simp del: startswith.simps)
qed

lemma repo_url_missing_repo:
  assumes "length (split_slash (rstrip_slashes rest)) < 2"
  shows "validate_repo_url (''https://github.com/'' @ rest)
           = Inl (ValidationError RepoUrlMissingOwnerRepo)"
proof -
  let ?p = "''https://github.com/''"
  let ?rest = "rstrip_chars py_isspace rest"
  have strip: "py_strip (?p @ rest) = ?p @ ?rest"
    by (rule py_strip_prefixed) (simp_all add: py_isspace_def code_of_def)
  from assms have "CHR ''/'' \<notin> set (rstrip_slashes rest)"
    by (simp add: split_slash_single)
  then have "CHR ''/'' \<notin> set (rstrip_slashes ?rest)"
    by (rule rstrip_space_keeps_shape)
  then have "length (split_slash (rstrip_slashes ?rest)) < 2"
    by (simp add: split_slash_single)
  with strip show ?thesis by (rule repo_url_missing_repo_trimmed)
qed

text \<open>
  C8 (as amended). \<open>validate_repo_url\<close> trims surrounding whitespace first. It rejects
  every input whose trimmed form does not begin with \<open>https://github.com/\<close>, and every
  input whose trimmed form, after that prefix and the trailing slashes are removed, has
  fewer than two \<open>/\<close>-delimited segments (the same holds of an input that begins with
  the prefix before trimming); an accepted input is returned trimmed.
  \<open>http://github.com/o/r\<close> and \<open>https://github.com/o\<close> are rejected,
  \<open>https://github.com/o/r\<close> is accepted.
\<close>

theorem validate_repo_url_rejects:
  "(\<not> startswith ''https://github.com/'' (py_strip raw) \<longrightarrow>
      (\<exists>r. validate_repo_url raw = Inl (ValidationError r)))
   \<and> (py_strip raw = ''https://github.com/'' @ rest'
        \<and> length (split_slash (rstrip_slashes rest')) < 2
        \<longrightarrow> validate_repo_url raw = Inl (ValidationError RepoUrlMissingOwnerRepo))
   \<and> (raw = ''https://github.com/'' @ rest \<and> length (split_slash (rstrip_slashes rest)) < 2
        \<longrightarrow> validate_repo_url raw = Inl (ValidationError RepoUrlMissingOwnerRepo))
   \<and> (validate_repo_url raw = Inr url \<longrightarrow>
        url = py_strip raw \<and> startswith ''https://github.com/'' url)
   \<and> validate_repo_url ''http://github.com/o/r'' = Inl (ValidationError RepoUrlNotGithub)
   \<and> validate_repo_url ''https://github.com/o''
        = Inl (ValidationError RepoUrlMissingOwnerRepo)
   \<and> validate_repo_url ''https://github.com/o/r'' = Inr ''https://github.com/o/r''"
proof -
  have A: "\<not> startswith ''https://github.com/'' (py_strip raw) \<longrightarrow>
      (\<exists>r. validate_repo_url raw = Inl (ValidationError r))"
    by (simp add: validate_repo_url_def Let_def del: startswith.simps)
  have B': "py_strip raw = ''https://github.com/'' @ rest'
        \<and> length (split_slash (rstrip_slashes rest')) < 2
        \<longrightarrow> validate_repo_url raw = Inl (ValidationError RepoUrlMissingOwnerRepo)"
    using repo_url_missing_repo_trimmed by blast
  have B: "raw = ''https://github.com/'' @ rest
        \<and> length (split_slash (rstrip_slashes rest)) < 2
        \<longrightarrow> validate_repo_url raw = Inl (ValidationError RepoUrlMissingOwnerRepo)"
    using repo_url_missing_repo by blast
  have C: "validate_repo_url raw = Inr url \<longrightarrow>
        url = py_strip raw \<and> startswith ''https://github.com/'' url"
    by (auto simp: validate_repo_url_def Let_def simp del: startswith.simps
        split: if_splits)
  have D: "validate_repo_url ''http://github.com/o/r'' = Inl (ValidationError RepoUrlNotGithub)"
    by code_simp
  have E: "validate_repo_url ''https://github.com/o''
        = Inl (ValidationError RepoUrlMissingOwnerRepo)"
    by code_simp
  have F: "validate_repo_url ''https://github.com/o/r'' = Inr ''https://github.com/o/r''"
    by code_simp
  from A B' B C D E F show ?thesis by blast
qed

theorem validate_repo_url_rejects_witness:
  "\<not> startswith ''https://github.com/'' (py_strip ''git@github.com:o/r.git'')
   \<and> (\<exists>r. validate_repo_url ''git@github.com:o/r.git'' = Inl (ValidationError r))
   \<and> py_strip '' https://github.com/o/ '' = ''https://github.com/'' @ ''o/''
   \<and> length (split_slash (rstrip_slashes ''o/'')) < 2
   \<and> validate_repo_url '' https://github.com/o/ ''
       = Inl (ValidationError RepoUrlMissingOwnerRepo)
   \<and> length (split_slash (rstrip_slashes ''owner//'')) < 2
   \<and> validate_repo_url (''https://github.com/'' @ ''owner//'')
       = Inl (ValidationError RepoUrlMissingOwnerRepo)
   \<and> validate_repo_url ''https://github.com/o/r/ '' = Inr ''https://github.com/o/r/''
   \<and> ''https://github.com/o/r/'' = py_strip ''https://github.com/o/r/ ''"
proof -
  have a: "\<not> startswith ''https://github.com/'' (py_strip ''git@github.com:o/r.git'')"
    by code_simp
  with validate_repo_url_rejects [of "''git@github.com:o/r.git''"]
  have b: "\<exists>r. validate_repo_url ''git@github.com:o/r.git'' = Inl (ValidationError r)"
    by blast
  have t1: "py_strip '' https://github.com/o/ '' = ''https://github.com/'' @ ''o/''"
    by code_simp
  have t2: "length (split_slash (rstrip_slashes ''o/'')) < 2"
    by code_simp
  from t1 t2 validate_repo_url_rejects [of "'' https://github.com/o/ ''" "''o/''"]
  have t3: "validate_repo_url '' https://github.com/o/ ''
       = Inl (ValidationError RepoUrlMissingOwnerRepo)"
    by blast
  have c: "length (split_slash (rstrip_slashes ''owner//'')) < 2"
    by code_simp
  with validate_repo_url_rejects
    [of "''https://github.com/'' @ ''owner//''" _ "''owner//''"]
  have d: "validate_repo_url (''https://github.com/'' @ ''owner//'')
       = Inl (ValidationError RepoUrlMissingOwnerRepo)"
    by blast
  have e: "validate_repo_url ''https://github.com/o/r/ '' = Inr ''https://github.com/o/r/''"
    by code_simp
  with validate_repo_url_rejects
    [of "''https://github.com/o/r/ ''" _ _ "''https://github.com/o/r/''"]
  have f: "''https://github.com/o/r/'' = py_strip ''https://github.com/o/r/ ''"
    by blast
  from a b t1 t2 t3 c d e f show ?thesis by blast
qed

text \<open>
  The claim as stated fails: an input with a leading space does not begin with the
  prefix, and is accepted.
\<close>

theorem validate_repo_url_counterexample:
  "\<not> startswith ''https://github.com/'' '' https://github.com/o/r''
   \<and> validate_repo_url '' https://github.com/o/r'' = Inr ''https://github.com/o/r''"
  by code_simp

end
